theory Spec2Isabelle
  imports Main "HOL-Library.Word"
begin

section \<open>JavaScript strings\<close>

text \<open>
  A JavaScript string is a finite sequence of UTF-16 code units, and \<open>length\<close>,
  \<open>startsWith\<close>, \<open>trim\<close>, \<open>replace\<close> and regular expressions without the \<open>u\<close> flag all
  work on code units. A string is therefore a list of 16-bit words; \<open>lit\<close> embeds an
  ASCII literal of the source.
\<close>

type_synonym jschar = "16 word"
type_synonym jsstring = "jschar list"

definition lit :: "string \<Rightarrow> jsstring" where
  "lit s = map (\<lambda>c. of_nat (of_char c)) s"

text \<open>
  \<open>String.prototype.trim\<close> removes WhiteSpace and LineTerminator code points from both
  ends, and the class \<open>\s\<close> of a regular expression is the same set: TAB, LF, VT, FF, CR,
  SP, NBSP, U+1680, U+2000 to U+200A, LS, PS, U+202F, U+205F, U+3000 and U+FEFF.
\<close>

definition is_space :: "jschar \<Rightarrow> bool" where
  "is_space c \<longleftrightarrow>
     c = 0x9 \<or> c = 0xA \<or> c = 0xB \<or> c = 0xC \<or> c = 0xD \<or> c = 0x20 \<or> c = 0xA0 \<or>
     c = 0x1680 \<or> (0x2000 \<le> c \<and> c \<le> 0x200A) \<or> c = 0x2028 \<or> c = 0x2029 \<or>
     c = 0x202F \<or> c = 0x205F \<or> c = 0x3000 \<or> c = 0xFEFF"

definition trim :: "jsstring \<Rightarrow> jsstring" where
  "trim s = rev (dropWhile is_space (rev (dropWhile is_space s)))"

definition startsWith :: "jsstring \<Rightarrow> jsstring \<Rightarrow> bool" where
  "startsWith s p \<longleftrightarrow> take (length p) s = p"

text \<open>
  The flag \<open>i\<close> (without \<open>u\<close>) compares the canonical forms of pattern and input
  character, where the canonical form is the upper-case mapping unless that would take
  a non-ASCII character to an ASCII one. All pattern characters of the source are
  ASCII, so only the ASCII letters have to be folded.
\<close>

definition canonicalize :: "jschar \<Rightarrow> jschar" where
  "canonicalize c = (if 0x61 \<le> c \<and> c \<le> 0x7A then c - 0x20 else c)"

definition startsWith_ci :: "jsstring \<Rightarrow> jsstring \<Rightarrow> bool" where
  "startsWith_ci s p \<longleftrightarrow> map canonicalize (take (length p) s) = map canonicalize p"

text \<open>
  \<open>str.replace(/c/g, r)\<close> for a one-character pattern \<open>c\<close> and a replacement \<open>r\<close> that
  contains no dollar sign: every occurrence of \<open>c\<close> becomes \<open>r\<close>.
\<close>

definition replace_all :: "jschar \<Rightarrow> jsstring \<Rightarrow> jsstring \<Rightarrow> jsstring" where
  "replace_all c r s = concat (map (\<lambda>x. if x = c then r else [x]) s)"

section \<open>QR-code Genrator/src/utils/wifi.ts\<close>

text \<open>
  The type \<open>'WPA' | 'WEP' | 'nopass'\<close> of the field \<open>security\<close> is a union of three string
  literals; \<open>security_str\<close> is the string that the template literal inserts.
\<close>

datatype Security = WPA | WEP | nopass

fun security_str :: "Security \<Rightarrow> jsstring" where
  "security_str WPA = lit ''WPA''"
| "security_str WEP = lit ''WEP''"
| "security_str nopass = lit ''nopass''"

record WiFiConfig =
  ssid :: jsstring
  password :: jsstring
  security :: Security
  hidden :: bool

text \<open>Five global replacements in a row; \<open>0x5C\<close> is the backslash.\<close>

definition escapeWiFiString :: "jsstring \<Rightarrow> jsstring" where
  "escapeWiFiString str =
     replace_all 0x3A (lit [CHR 0x5C, CHR '':''])
       (replace_all 0x22 (lit [CHR 0x5C, CHR 0x22])
         (replace_all 0x3B (lit [CHR 0x5C, CHR '';''])
           (replace_all 0x2C (lit [CHR 0x5C, CHR '',''])
             (replace_all 0x5C (lit [CHR 0x5C, CHR 0x5C]) str))))"

definition generateWiFiPayload :: "WiFiConfig \<Rightarrow> jsstring" where
  "generateWiFiPayload config =
     (let escapedSSID = escapeWiFiString (ssid config);
          escapedPassword = escapeWiFiString (password config)
      in lit ''WIFI:T:'' @ security_str (security config) @ lit '';S:'' @ escapedSSID @
         lit '';P:'' @ escapedPassword @ lit '';H:'' @
         (if hidden config then lit ''true'' else lit ''false'') @ lit '';;'')"

text \<open>
  The result \<open>{isValid, errors}\<close> of both validation functions. A string is falsy iff it
  is empty, so \<open>!config.ssid.trim()\<close> tests \<open>trim (ssid config) = []\<close>.
\<close>

record ValidationResult =
  isValid :: bool
  errors :: "jsstring list"

definition validateWiFiConfig :: "WiFiConfig \<Rightarrow> ValidationResult" where
  "validateWiFiConfig config =
     (let errors0 = [];
          errors1 = (if trim (ssid config) = [] then errors0 @ [lit ''SSID is required'']
                     else errors0);
          errors2 = (if length (ssid config) > 32
                     then errors1 @ [lit ''SSID cannot exceed 32 characters'']
                     else errors1);
          errors3 = (if security config \<noteq> nopass \<and> password config = []
                     then errors2 @ [lit ''Password is required for secured networks'']
                     else errors2);
          errors4 = (if password config \<noteq> [] \<and> length (password config) > 63
                     then errors3 @ [lit ''Password cannot exceed 63 characters'']
                     else errors3)
      in \<lparr>isValid = (length errors4 = 0), errors = errors4\<rparr>)"

section \<open>QR-code Reader/src/utils/qrcode.ts\<close>

definition validateQRContent :: "jsstring \<Rightarrow> ValidationResult" where
  "validateQRContent content =
     (let errors0 = [];
          errors1 = (if trim content = [] then errors0 @ [lit ''Content cannot be empty'']
                     else errors0);
          errors2 = (if length content > 2000
                     then errors1 @ [lit ''Content is too long (maximum 2000 characters)'']
                     else errors1)
      in \<lparr>isValid = (length errors2 = 0), errors = errors2\<rparr>)"

section \<open>QR-code Reader/src/components/QRReader.tsx\<close>

text \<open>
  \<open>parseQRData\<close> is a sequence of tests, each returning when it matches. The tests are
  named here, and \<open>parseQRData\<close> takes them in the order of the source. The optional
  field \<open>parsed\<close> is an option; the source fills it with a \<open>WiFiData\<close> only.
\<close>

datatype QRType = Url | Text | Wifi | Email | Phone | Sms | Geo | Vcard | Event | Unknown

record WiFiData =
  ssid :: jsstring
  password :: jsstring
  security :: jsstring
  hidden :: bool

record QRResult =
  data :: jsstring
  type :: QRType
  parsed :: "WiFiData option"

text \<open>\<open>/^https?:\/\//i\<close> or \<open>/^www\./i\<close>.\<close>

definition url_test :: "jsstring \<Rightarrow> bool" where
  "url_test s \<longleftrightarrow>
     (startsWith_ci s (lit ''http://'') \<or> startsWith_ci s (lit ''https://'')) \<or>
     startsWith_ci s (lit ''www.'')"

text \<open>
  \<open>/WIFI:T:([^;]*);S:([^;]*);P:([^;]*);H:([^;]*);/\<close> has no anchor: \<open>match\<close> tries every
  start position from the left and returns the first match (\<open>wifi_match\<close>). At one
  position (\<open>wifi_at\<close>) the match is deterministic: a group \<open>[^;]*\<close> is greedy and is
  followed by a semicolon in the pattern, so it takes exactly the characters up to the
  next semicolon (giving some of them back would leave a character other than a
  semicolon where the pattern wants one). \<open>group_then sep\<close> is one group followed by
  the literal \<open>sep\<close>: it returns the group and the rest of the input.
\<close>

fun strip_prefix :: "jsstring \<Rightarrow> jsstring \<Rightarrow> jsstring option" where
  "strip_prefix [] s = Some s"
| "strip_prefix (p # ps) [] = None"
| "strip_prefix (p # ps) (c # cs) = (if c = p then strip_prefix ps cs else None)"

definition not_semi :: "jschar \<Rightarrow> bool" where
  "not_semi c \<longleftrightarrow> c \<noteq> 0x3B"

definition group_then :: "jsstring \<Rightarrow> jsstring \<Rightarrow> (jsstring \<times> jsstring) option" where
  "group_then sep s =
     map_option (Pair (takeWhile not_semi s)) (strip_prefix sep (dropWhile not_semi s))"

definition wifi_at :: "jsstring \<Rightarrow> (jsstring \<times> jsstring \<times> jsstring \<times> jsstring) option" where
  "wifi_at s =
     Option.bind (strip_prefix (lit ''WIFI:T:'') s) (\<lambda>s1.
     Option.bind (group_then (lit '';S:'') s1) (\<lambda>(g1, s2).
     Option.bind (group_then (lit '';P:'') s2) (\<lambda>(g2, s3).
     Option.bind (group_then (lit '';H:'') s3) (\<lambda>(g3, s4).
     Option.bind (group_then (lit '';'') s4) (\<lambda>(g4, s5).
       Some (g1, g2, g3, g4))))))"

fun wifi_match :: "jsstring \<Rightarrow> (jsstring \<times> jsstring \<times> jsstring \<times> jsstring) option" where
  "wifi_match [] = wifi_at []"
| "wifi_match (c # cs) =
     (case wifi_at (c # cs) of Some g \<Rightarrow> Some g | None \<Rightarrow> wifi_match cs)"

text \<open>
  \<open>/^[^\s@]+@[^\s@]+\.[^\s@]+$/\<close>: the first run ends at the first at-sign; what follows
  must be free of white space and at-signs and must have a dot that is neither its
  first nor its last character.
\<close>

definition email_char :: "jschar \<Rightarrow> bool" where
  "email_char c \<longleftrightarrow> \<not> is_space c \<and> c \<noteq> 0x40"

definition email_shape :: "jsstring \<Rightarrow> bool" where
  "email_shape s \<longleftrightarrow>
     (let local = takeWhile email_char s; rest = dropWhile email_char s
      in local \<noteq> [] \<and>
         (case rest of [] \<Rightarrow> False
          | c # host \<Rightarrow> c = 0x40 \<and> list_all email_char host \<and>
              0x2E \<in> set (butlast (tl host))))"

text \<open>
  \<open>/^[\+]?[0-9\-\(\)\s]+$/\<close>: the plus sign is not in the class, so it can only be the
  optional first character.
\<close>

definition phone_char :: "jschar \<Rightarrow> bool" where
  "phone_char c \<longleftrightarrow>
     (0x30 \<le> c \<and> c \<le> 0x39) \<or> c = 0x2D \<or> c = 0x28 \<or> c = 0x29 \<or> is_space c"

definition phone_shape :: "jsstring \<Rightarrow> bool" where
  "phone_shape s \<longleftrightarrow>
     (let r = (case s of [] \<Rightarrow> [] | c # cs \<Rightarrow> if c = 0x2B then cs else s)
      in r \<noteq> [] \<and> list_all phone_char r)"

definition wifi_test :: "jsstring \<Rightarrow> bool" where
  "wifi_test s \<longleftrightarrow> startsWith s (lit ''WIFI:'') \<and> wifi_match s \<noteq> None"

definition email_test :: "jsstring \<Rightarrow> bool" where
  "email_test s \<longleftrightarrow> startsWith s (lit ''mailto:'') \<or> email_shape s"

definition phone_test :: "jsstring \<Rightarrow> bool" where
  "phone_test s \<longleftrightarrow> startsWith s (lit ''tel:'') \<or> phone_shape s"

definition sms_test :: "jsstring \<Rightarrow> bool" where
  "sms_test s \<longleftrightarrow> startsWith s (lit ''sms:'') \<or> startsWith s (lit ''smsto:'')"

definition geo_test :: "jsstring \<Rightarrow> bool" where
  "geo_test s \<longleftrightarrow> startsWith s (lit ''geo:'')"

definition vcard_test :: "jsstring \<Rightarrow> bool" where
  "vcard_test s \<longleftrightarrow> startsWith s (lit ''BEGIN:VCARD'')"

definition event_test :: "jsstring \<Rightarrow> bool" where
  "event_test s \<longleftrightarrow> startsWith s (lit ''BEGIN:VEVENT'')"

definition parseQRData :: "jsstring \<Rightarrow> QRResult" where
  "parseQRData d =
     (if url_test d then \<lparr>data = d, type = Url, parsed = None\<rparr>
      else case (if startsWith d (lit ''WIFI:'') then wifi_match d else None) of
        Some (g1, g2, g3, g4) \<Rightarrow>
          \<lparr>data = d, type = Wifi,
           parsed = Some \<lparr>ssid = g2, password = g3,
                          security = (if g1 = [] then lit ''nopass'' else g1),
                          hidden = (g4 = lit ''true'')\<rparr>\<rparr>
      | None \<Rightarrow>
          if email_test d then \<lparr>data = d, type = Email, parsed = None\<rparr>
          else if phone_test d then \<lparr>data = d, type = Phone, parsed = None\<rparr>
          else if sms_test d then \<lparr>data = d, type = Sms, parsed = None\<rparr>
          else if geo_test d then \<lparr>data = d, type = Geo, parsed = None\<rparr>
          else if vcard_test d then \<lparr>data = d, type = Vcard, parsed = None\<rparr>
          else if event_test d then \<lparr>data = d, type = Event, parsed = None\<rparr>
          else \<lparr>data = d, type = Text, parsed = None\<rparr>)"

section \<open>Auxiliary definitions\<close>

text \<open>
  The configuration of the example of the specification: ssid \<open>a;b\<close>, password
  \<open>p\q\<close> (one backslash), security WPA, hidden.
\<close>

definition example_config :: WiFiConfig where
  "example_config =
     \<lparr>WiFiConfig.ssid = lit ''a;b'', password = lit [CHR ''p'', CHR 0x5C, CHR ''q''],
      security = WPA, hidden = True\<rparr>"

text \<open>The five characters that \<open>escapeWiFiString\<close> escapes: backslash, comma, semicolon,
  double quote and colon.\<close>

definition escaped_char :: "jschar \<Rightarrow> bool" where
  "escaped_char c \<longleftrightarrow> c = 0x5C \<or> c = 0x2C \<or> c = 0x3B \<or> c = 0x22 \<or> c = 0x3A"

text \<open>A valid configuration whose ssid has a comma.\<close>

definition comma_config :: WiFiConfig where
  "comma_config =
     \<lparr>WiFiConfig.ssid = lit ''a,b'', password = lit ''secret'', security = WPA, hidden = False\<rparr>"

section \<open>The wording of the specification\<close>

text \<open>
  The specification describes the phone pattern as a full match of the character class
  plus sign, digits, hyphen, parentheses and spaces. This is that class, as worded; the
  class of the source is \<open>phone_char\<close>.
\<close>

definition phone_class_spec :: "jschar \<Rightarrow> bool" where
  "phone_class_spec c \<longleftrightarrow>
     c = 0x2B \<or> (0x30 \<le> c \<and> c \<le> 0x39) \<or> c = 0x2D \<or> c = 0x28 \<or> c = 0x29 \<or> c = 0x20"

section \<open>Facts about strings, escaping and validation\<close>

lemma lit_Nil [simp]: "lit [] = []"
  by (simp add: lit_def)

lemma lit_Cons: "lit (c # cs) = of_nat (of_char c) # lit cs"
  by (simp add: lit_def)

lemma lit_append: "lit (a @ b) = lit a @ lit b"
  by (simp add: lit_def)

lemma length_lit [simp]: "length (lit s) = length s"
  by (simp add: lit_def)

lemma code_unit_inj: "(of_nat (of_char a) :: jschar) = of_nat (of_char b) \<longleftrightarrow> a = b"
proof
  assume h: "(of_nat (of_char a) :: jschar) = of_nat (of_char b)"
  have "(of_char c :: nat) < 2 ^ 16" for c
    by (rule less_trans [OF nat_of_char_less_256]) simp
  then have a: "(of_char a :: nat) < 2 ^ 16" and b: "(of_char b :: nat) < 2 ^ 16"
    by blast+
  from h have "unat (of_nat (of_char a) :: jschar) = unat (of_nat (of_char b) :: jschar)"
    by simp
  then have "(of_char a :: nat) = of_char b"
    using a b by (simp add: unat_of_nat take_bit_nat_eq_self)
  then show "a = b" by simp
qed simp

lemma lit_eq_iff [simp]: "lit a = lit b \<longleftrightarrow> a = b"
proof (induction a arbitrary: b)
  case Nil
  then show ?case by (cases b) (simp_all add: lit_Cons)
next
  case (Cons x xs)
  then show ?case by (cases b) (simp_all add: lit_Cons code_unit_inj)
qed

lemma all_dropWhile: "(\<forall>x \<in> set (dropWhile P xs). P x) \<longleftrightarrow> (\<forall>x \<in> set xs. P x)"
  by (induction xs) auto

lemma trim_empty_iff: "trim s = [] \<longleftrightarrow> (\<forall>c \<in> set s. is_space c)"
  by (simp add: trim_def dropWhile_eq_Nil_conv all_dropWhile)

lemma validateWiFiConfig_unfold:
  "validateWiFiConfig cfg =
     \<lparr>isValid =
        (\<not> (trim (WiFiConfig.ssid cfg) = []) \<and> \<not> length (WiFiConfig.ssid cfg) > 32 \<and>
         \<not> (WiFiConfig.security cfg \<noteq> nopass \<and> WiFiConfig.password cfg = []) \<and>
         \<not> length (WiFiConfig.password cfg) > 63),
      errors =
        (if trim (WiFiConfig.ssid cfg) = [] then [lit ''SSID is required''] else []) @
        (if length (WiFiConfig.ssid cfg) > 32
         then [lit ''SSID cannot exceed 32 characters''] else []) @
        (if WiFiConfig.security cfg \<noteq> nopass \<and> WiFiConfig.password cfg = []
         then [lit ''Password is required for secured networks''] else []) @
        (if length (WiFiConfig.password cfg) > 63
         then [lit ''Password cannot exceed 63 characters''] else [])\<rparr>"
  by (auto simp add: validateWiFiConfig_def Let_def)

lemma replace_all_Nil [simp]: "replace_all c r [] = []"
  by (simp add: replace_all_def)

lemma replace_all_Cons [simp]:
  "replace_all c r (x # xs) = (if x = c then r else [x]) @ replace_all c r xs"
  by (simp add: replace_all_def)

lemma replace_all_append [simp]:
  "replace_all c r (xs @ ys) = replace_all c r xs @ replace_all c r ys"
  by (simp add: replace_all_def)

lemma replace_all_absent: "c \<notin> set s \<Longrightarrow> replace_all c r s = s"
  by (induction s) auto

lemma escapeWiFiString_charwise:
  "escapeWiFiString s = concat (map (\<lambda>c. if escaped_char c then [0x5C, c] else [c]) s)"
  by (induction s) (auto simp add: escapeWiFiString_def escaped_char_def lit_def)

lemma escapeWiFiString_plain:
  "\<forall>c \<in> set s. \<not> escaped_char c \<Longrightarrow> escapeWiFiString s = s"
  by (induction s) (auto simp add: escapeWiFiString_charwise)

lemma phone_shape_iff:
  "phone_shape s \<longleftrightarrow>
     (\<exists>r. (s = r \<or> s = 0x2B # r) \<and> r \<noteq> [] \<and> (\<forall>c \<in> set r. phone_char c))"
proof (cases s)
  case Nil
  then show ?thesis by (simp add: phone_shape_def)
next
  case (Cons c cs)
  have plus: "\<not> phone_char 0x2B"
    by (simp add: phone_char_def is_space_def)
  show ?thesis
  proof (cases "c = 0x2B")
    case True
    with Cons plus show ?thesis
      by (auto simp add: phone_shape_def list_all_iff)
  next
    case False
    with Cons show ?thesis
      by (auto simp add: phone_shape_def list_all_iff)
  qed
qed

text \<open>Unfolding sets: the tests of the classifier, and what evaluates them on a literal.\<close>

lemmas test_defs = url_test_def wifi_test_def email_test_def phone_test_def sms_test_def
  geo_test_def vcard_test_def event_test_def

lemmas eval_defs = startsWith_def startsWith_ci_def lit_def canonicalize_def
  email_shape_def email_char_def phone_shape_def phone_char_def is_space_def
  wifi_at_def group_then_def not_semi_def

section \<open>Facts about the tests of the classifier\<close>

lemma startsWith_iff_append: "startsWith s p \<longleftrightarrow> (\<exists>r. s = p @ r)"
proof
  assume "startsWith s p"
  then have "s = p @ drop (length p) s"
    by (metis append_take_drop_id startsWith_def)
  then show "\<exists>r. s = p @ r" ..
next
  assume "\<exists>r. s = p @ r"
  then show "startsWith s p"
    by (auto simp add: startsWith_def)
qed

lemma canonicalize_H: "canonicalize c = 0x48 \<longleftrightarrow> c = 0x48 \<or> c = 0x68"
  by (auto simp add: canonicalize_def diff_eq_eq)

lemma canonicalize_W: "canonicalize c = 0x57 \<longleftrightarrow> c = 0x57 \<or> c = 0x77"
  by (auto simp add: canonicalize_def diff_eq_eq)

lemma url_test_hd:
  assumes "url_test s"
  shows "\<exists>c r. s = c # r \<and> (c = 0x48 \<or> c = 0x68 \<or> c = 0x57 \<or> c = 0x77)"
proof (cases s)
  case Nil
  with assms show ?thesis
    by (simp add: url_test_def startsWith_ci_def lit_def)
next
  case (Cons c r)
  with assms have "canonicalize c = 0x48 \<or> canonicalize c = 0x57"
    by (auto simp add: url_test_def startsWith_ci_def lit_def canonicalize_def [of "0x68"]
        canonicalize_def [of "0x77"])
  with Cons show ?thesis
    by (auto simp add: canonicalize_H canonicalize_W)
qed

lemma phone_shape_hd:
  assumes "phone_shape s"
  shows "\<exists>c r. s = c # r \<and> (c = 0x2B \<or> phone_char c)"
  using assms by (cases s) (auto simp add: phone_shape_def split: if_splits)

lemma wifi_prefix_not_url: "startsWith s (lit ''WIFI:'') \<Longrightarrow> \<not> url_test s"
  by (auto simp add: startsWith_iff_append url_test_def startsWith_ci_def lit_def
      canonicalize_def)

lemma url_not_phone: "url_test s \<Longrightarrow> \<not> phone_test s"
  by (auto dest!: url_test_hd phone_shape_hd
      simp add: phone_test_def startsWith_iff_append lit_def phone_char_def is_space_def)

lemma url_not_others:
  assumes "url_test s"
  shows "\<not> sms_test s" "\<not> geo_test s" "\<not> vcard_test s" "\<not> event_test s"
  using url_test_hd [OF assms]
  by (auto simp add: sms_test_def geo_test_def vcard_test_def event_test_def
      startsWith_iff_append lit_def)

lemma wifi_prefix_not_others:
  assumes "startsWith s (lit ''WIFI:'')"
  shows "\<not> startsWith s (lit ''mailto:'')" "\<not> phone_test s" "\<not> sms_test s" "\<not> geo_test s"
    "\<not> vcard_test s" "\<not> event_test s"
  using assms
  by (auto dest!: phone_shape_hd simp add: phone_test_def sms_test_def geo_test_def vcard_test_def event_test_def
      startsWith_iff_append lit_def phone_char_def is_space_def)

lemma phone_not_others:
  assumes "phone_test s"
  shows "\<not> sms_test s" "\<not> geo_test s" "\<not> vcard_test s" "\<not> event_test s"
  using assms
  by (auto dest!: phone_shape_hd simp add: phone_test_def sms_test_def geo_test_def vcard_test_def event_test_def
      startsWith_iff_append lit_def phone_char_def is_space_def)

lemma sms_not_others:
  assumes "sms_test s"
  shows "\<not> geo_test s" "\<not> vcard_test s" "\<not> event_test s"
  using assms
  by (auto simp add: sms_test_def geo_test_def vcard_test_def event_test_def
      startsWith_iff_append lit_def)

lemma geo_not_others:
  assumes "geo_test s"
  shows "\<not> vcard_test s" "\<not> event_test s"
  using assms
  by (auto simp add: geo_test_def vcard_test_def event_test_def
      startsWith_iff_append lit_def)

lemma vcard_not_event: "vcard_test s \<Longrightarrow> \<not> event_test s"
  by (auto simp add: vcard_test_def event_test_def startsWith_iff_append lit_def)

lemma parseQRData_wifi_prefix:
  assumes "startsWith s (lit ''WIFI:'')"
  shows "parseQRData s =
     (case wifi_match s of
        Some (g1, g2, g3, g4) \<Rightarrow>
          \<lparr>data = s, type = Wifi,
           parsed = Some \<lparr>ssid = g2, password = g3,
                          security = (if g1 = [] then lit ''nopass'' else g1),
                          hidden = (g4 = lit ''true'')\<rparr>\<rparr>
      | None \<Rightarrow> \<lparr>data = s, type = (if email_shape s then Email else Text), parsed = None\<rparr>)"
  using wifi_prefix_not_url [OF assms] wifi_prefix_not_others [OF assms] assms
  by (simp add: parseQRData_def email_test_def split: option.split)

section \<open>Facts about the capture pattern\<close>

lemma strip_prefix_append [simp]: "strip_prefix p (p @ r) = Some r"
  by (induction p) simp_all

lemma strip_prefix_Some_iff: "strip_prefix p s = Some r \<longleftrightarrow> s = p @ r"
  by (induction p s rule: strip_prefix.induct) auto

lemma group_then_append:
  assumes "\<forall>c \<in> set g. not_semi c"
  shows "group_then (0x3B # sep) (g @ 0x3B # sep @ r) = Some (g, r)"
proof -
  have "takeWhile not_semi (g @ 0x3B # sep @ r) = g"
    using assms by (simp add: takeWhile_append2 not_semi_def)
  moreover have "dropWhile not_semi (g @ 0x3B # sep @ r) = 0x3B # sep @ r"
    using assms by (simp add: dropWhile_append2 not_semi_def)
  ultimately show ?thesis
    by (simp add: group_then_def)
qed

lemma semi_lits:
  "lit '';S:'' = 0x3B # lit ''S:''" "lit '';P:'' = 0x3B # lit ''P:''"
  "lit '';H:'' = 0x3B # lit ''H:''" "lit '';'' = 0x3B # []" "lit '';;'' = 0x3B # [] @ lit '';''"
  by (simp_all add: lit_def)

lemma wifi_at_fields:
  assumes "\<forall>c \<in> set g1. not_semi c" "\<forall>c \<in> set g2. not_semi c"
    "\<forall>c \<in> set g3. not_semi c" "\<forall>c \<in> set g4. not_semi c"
  shows "wifi_at (lit ''WIFI:T:'' @ g1 @ lit '';S:'' @ g2 @ lit '';P:'' @ g3 @ lit '';H:'' @ g4 @
           lit '';'' @ r) = Some (g1, g2, g3, g4)"
  using assms unfolding wifi_at_def semi_lits
  by (simp add: group_then_append group_then_append [where sep = "[]", simplified])

text \<open>
  The matchers above are the patterns of the source read as languages: the email
  shape is a non-empty run, an at-sign, a non-empty run, a dot and a non-empty run, all
  runs free of white space and at-signs; a match of the capture pattern at a position
  is the literal text around four groups without semicolon; and \<open>wifi_match\<close> returns
  the match at the leftmost position that has one.
\<close>

lemma email_shape_iff:
  "email_shape s \<longleftrightarrow>
     (\<exists>u v w. s = u @ 0x40 # v @ 0x2E # w \<and> u \<noteq> [] \<and> v \<noteq> [] \<and> w \<noteq> [] \<and>
        (\<forall>c \<in> set u \<union> set v \<union> set w. email_char c))"
proof
  assume shape: "email_shape s"
  define u where "u = takeWhile email_char s"
  define rest where "rest = dropWhile email_char s"
  have s: "s = u @ rest"
    by (simp add: u_def rest_def)
  from shape have u: "u \<noteq> []"
    by (simp add: email_shape_def u_def Let_def)
  from shape obtain host where rest: "rest = 0x40 # host"
    and host: "list_all email_char host" and dot: "0x2E \<in> set (butlast (tl host))"
    by (auto simp add: email_shape_def rest_def Let_def split: list.splits)
  from dot have "tl host \<noteq> []"
    by auto
  then obtain h t where ht: "host = h # t" and t: "t \<noteq> []"
    by (cases host) auto
  from dot ht obtain a b where ab: "butlast t = a @ 0x2E # b"
    by (auto dest: split_list)
  have "t = butlast t @ [last t]"
    using t by simp
  with ab ht have "host = (h # a) @ 0x2E # (b @ [last t])"
    by simp
  moreover have "\<forall>c \<in> set u. email_char c"
    unfolding u_def by (auto dest: set_takeWhileD)
  ultimately show "\<exists>u v w. s = u @ 0x40 # v @ 0x2E # w \<and> u \<noteq> [] \<and> v \<noteq> [] \<and> w \<noteq> [] \<and>
        (\<forall>c \<in> set u \<union> set v \<union> set w. email_char c)"
    using s u rest host
    by (intro exI [of _ u] exI [of _ "h # a"] exI [of _ "b @ [last t]"])
      (auto simp add: list_all_iff)
next
  assume "\<exists>u v w. s = u @ 0x40 # v @ 0x2E # w \<and> u \<noteq> [] \<and> v \<noteq> [] \<and> w \<noteq> [] \<and>
        (\<forall>c \<in> set u \<union> set v \<union> set w. email_char c)"
  then obtain u v w where s: "s = u @ 0x40 # v @ 0x2E # w"
    and ne: "u \<noteq> []" "v \<noteq> []" "w \<noteq> []"
    and ok: "\<forall>c \<in> set u. email_char c" "\<forall>c \<in> set v. email_char c" "\<forall>c \<in> set w. email_char c"
    by auto
  have at: "\<not> email_char 0x40" and dot: "email_char 0x2E"
    by (simp_all add: email_char_def is_space_def)
  have tw: "takeWhile email_char s = u"
    using ok(1) at by (simp add: s takeWhile_append2)
  have dw: "dropWhile email_char s = 0x40 # v @ 0x2E # w"
    using ok(1) at by (simp add: s dropWhile_append2)
  obtain x v' where v: "v = x # v'"
    using ne(2) by (cases v) auto
  have "0x2E \<in> set (butlast (tl (v @ 0x2E # w)))"
    using ne(3) by (simp add: v butlast_append)
  then show "email_shape s"
    using ne(1) ok dot by (auto simp add: email_shape_def tw dw list_all_iff)
qed

lemma group_then_Some_iff:
  "group_then sep s = Some (g, r) \<longleftrightarrow>
     s = g @ sep @ r \<and> (\<forall>c \<in> set g. not_semi c) \<and> (sep @ r = [] \<or> \<not> not_semi (hd (sep @ r)))"
proof
  assume "group_then sep s = Some (g, r)"
  then have g: "g = takeWhile not_semi s" and d: "dropWhile not_semi s = sep @ r"
    by (auto simp add: group_then_def strip_prefix_Some_iff)
  have "s = g @ sep @ r"
    using takeWhile_dropWhile_id [of not_semi s] by (simp add: g d)
  moreover have "\<forall>c \<in> set g. not_semi c"
    unfolding g by (auto dest: set_takeWhileD)
  moreover have "sep @ r = [] \<or> \<not> not_semi (hd (sep @ r))"
    using hd_dropWhile [of not_semi s] by (auto simp add: d)
  ultimately show "s = g @ sep @ r \<and> (\<forall>c \<in> set g. not_semi c) \<and>
      (sep @ r = [] \<or> \<not> not_semi (hd (sep @ r)))"
    by blast
next
  assume a: "s = g @ sep @ r \<and> (\<forall>c \<in> set g. not_semi c) \<and>
      (sep @ r = [] \<or> \<not> not_semi (hd (sep @ r)))"
  then have "takeWhile not_semi (sep @ r) = []"
    by (cases "sep @ r") auto
  with a have "takeWhile not_semi s = g"
    by (simp add: takeWhile_append2)
  moreover from a have "dropWhile not_semi (sep @ r) = sep @ r"
    by (cases "sep @ r") auto
  with a have "dropWhile not_semi s = sep @ r"
    by (simp add: dropWhile_append2)
  ultimately show "group_then sep s = Some (g, r)"
    by (simp add: group_then_def)
qed

lemma wifi_at_iff:
  "wifi_at s = Some (g1, g2, g3, g4) \<longleftrightarrow>
     (\<exists>r. s = lit ''WIFI:T:'' @ g1 @ lit '';S:'' @ g2 @ lit '';P:'' @ g3 @ lit '';H:'' @ g4 @
              lit '';'' @ r) \<and>
     (\<forall>c \<in> set g1 \<union> set g2 \<union> set g3 \<union> set g4. c \<noteq> 0x3B)"
proof
  assume "wifi_at s = Some (g1, g2, g3, g4)"
  then obtain s1 s2 s3 s4 s5 where "strip_prefix (lit ''WIFI:T:'') s = Some s1"
    and "group_then (lit '';S:'') s1 = Some (g1, s2)"
    and "group_then (lit '';P:'') s2 = Some (g2, s3)"
    and "group_then (lit '';H:'') s3 = Some (g3, s4)"
    and "group_then (lit '';'') s4 = Some (g4, s5)"
    by (auto simp add: wifi_at_def bind_eq_Some_conv)
  then show "(\<exists>r. s = lit ''WIFI:T:'' @ g1 @ lit '';S:'' @ g2 @ lit '';P:'' @ g3 @ lit '';H:'' @ g4 @
              lit '';'' @ r) \<and>
     (\<forall>c \<in> set g1 \<union> set g2 \<union> set g3 \<union> set g4. c \<noteq> 0x3B)"
    by (auto simp add: strip_prefix_Some_iff group_then_Some_iff not_semi_def)
next
  assume "(\<exists>r. s = lit ''WIFI:T:'' @ g1 @ lit '';S:'' @ g2 @ lit '';P:'' @ g3 @ lit '';H:'' @ g4 @
              lit '';'' @ r) \<and>
     (\<forall>c \<in> set g1 \<union> set g2 \<union> set g3 \<union> set g4. c \<noteq> 0x3B)"
  then show "wifi_at s = Some (g1, g2, g3, g4)"
    by (auto simp add: not_semi_def intro!: wifi_at_fields)
qed

lemma wifi_match_leftmost:
  "wifi_match s = Some g \<longleftrightarrow>
     (\<exists>k \<le> length s. wifi_at (drop k s) = Some g \<and> (\<forall>j < k. wifi_at (drop j s) = None))"
proof (induction s)
  case Nil
  then show ?case by simp
next
  case (Cons c cs)
  show ?case
  proof (cases "wifi_at (c # cs)")
    case (Some g')
    have "(\<exists>k \<le> length (c # cs). wifi_at (drop k (c # cs)) = Some g \<and>
            (\<forall>j < k. wifi_at (drop j (c # cs)) = None)) \<longleftrightarrow> g' = g"
    proof
      assume "\<exists>k \<le> length (c # cs). wifi_at (drop k (c # cs)) = Some g \<and>
            (\<forall>j < k. wifi_at (drop j (c # cs)) = None)"
      then obtain k where k: "wifi_at (drop k (c # cs)) = Some g"
        "\<forall>j < k. wifi_at (drop j (c # cs)) = None"
        by blast
      show "g' = g"
      proof (cases k)
        case 0
        with k Some show ?thesis by simp
      next
        case (Suc n)
        with k(2) have "wifi_at (drop 0 (c # cs)) = None" by blast
        with Some show ?thesis by simp
      qed
    next
      assume "g' = g"
      with Some show "\<exists>k \<le> length (c # cs). wifi_at (drop k (c # cs)) = Some g \<and>
            (\<forall>j < k. wifi_at (drop j (c # cs)) = None)"
        by (intro exI [of _ 0]) simp
    qed
    with Some show ?thesis by simp
  next
    case None
    have "(\<exists>k \<le> length (c # cs). wifi_at (drop k (c # cs)) = Some g \<and>
            (\<forall>j < k. wifi_at (drop j (c # cs)) = None)) \<longleftrightarrow>
          (\<exists>k \<le> length cs. wifi_at (drop k cs) = Some g \<and> (\<forall>j < k. wifi_at (drop j cs) = None))"
    proof
      assume "\<exists>k \<le> length (c # cs). wifi_at (drop k (c # cs)) = Some g \<and>
            (\<forall>j < k. wifi_at (drop j (c # cs)) = None)"
      then obtain k where k: "k \<le> length (c # cs)" "wifi_at (drop k (c # cs)) = Some g"
        "\<forall>j < k. wifi_at (drop j (c # cs)) = None"
        by blast
      with None obtain n where n: "k = Suc n"
        by (cases k) auto
      have "\<forall>j < n. wifi_at (drop j cs) = None"
      proof (intro allI impI)
        fix j assume "j < n"
        then have "Suc j < k" using n by simp
        with k(3) have "wifi_at (drop (Suc j) (c # cs)) = None" by blast
        then show "wifi_at (drop j cs) = None" by simp
      qed
      with k n show "\<exists>k \<le> length cs. wifi_at (drop k cs) = Some g \<and>
          (\<forall>j < k. wifi_at (drop j cs) = None)"
        by (intro exI [of _ n]) simp
    next
      assume "\<exists>k \<le> length cs. wifi_at (drop k cs) = Some g \<and> (\<forall>j < k. wifi_at (drop j cs) = None)"
      then obtain n where n: "n \<le> length cs" "wifi_at (drop n cs) = Some g"
        "\<forall>j < n. wifi_at (drop j cs) = None"
        by blast
      have "\<forall>j < Suc n. wifi_at (drop j (c # cs)) = None"
      proof (intro allI impI)
        fix j assume j: "j < Suc n"
        show "wifi_at (drop j (c # cs)) = None"
        proof (cases j)
          case 0
          with None show ?thesis by simp
        next
          case (Suc i)
          with j n(3) show ?thesis by simp
        qed
      qed
      with n show "\<exists>k \<le> length (c # cs). wifi_at (drop k (c # cs)) = Some g \<and>
            (\<forall>j < k. wifi_at (drop j (c # cs)) = None)"
        by (intro exI [of _ "Suc n"]) simp
    qed
    with None Cons.IH show ?thesis by simp
  qed
qed

lemma wifi_match_at: "wifi_at s = Some g \<Longrightarrow> wifi_match s = Some g"
  by (cases s) simp_all

lemma set_escapeWiFiString: "set (escapeWiFiString s) \<subseteq> insert 0x5C (set s)"
  by (induction s) (auto simp add: escapeWiFiString_charwise)

lemma not_semi_escapeWiFiString:
  assumes "0x3B \<notin> set s"
  shows "\<forall>c \<in> set (escapeWiFiString s). not_semi c"
  using assms set_escapeWiFiString [of s] by (auto simp add: not_semi_def)

lemma not_semi_security_str: "\<forall>c \<in> set (security_str sec). not_semi c"
  by (cases sec) (simp_all add: lit_def not_semi_def)

lemma security_str_nonempty: "security_str sec \<noteq> []"
  by (cases sec) (simp_all add: lit_def)

lemma generateWiFiPayload_parse:
  assumes "0x3B \<notin> set (WiFiConfig.ssid cfg)" "0x3B \<notin> set (WiFiConfig.password cfg)"
  shows "parseQRData (generateWiFiPayload cfg) =
     \<lparr>data = generateWiFiPayload cfg, type = Wifi,
      parsed = Some \<lparr>ssid = escapeWiFiString (WiFiConfig.ssid cfg),
                     password = escapeWiFiString (WiFiConfig.password cfg),
                     security = security_str (WiFiConfig.security cfg),
                     hidden = WiFiConfig.hidden cfg\<rparr>\<rparr>"
proof -
  let ?h = "lit (if WiFiConfig.hidden cfg then ''true'' else ''false'')"
  let ?r = "lit ''T:'' @ security_str (WiFiConfig.security cfg) @ lit '';S:'' @
     escapeWiFiString (WiFiConfig.ssid cfg) @ lit '';P:'' @
     escapeWiFiString (WiFiConfig.password cfg) @ lit '';H:'' @ ?h @ lit '';'' @ lit '';''"
  have shape: "generateWiFiPayload cfg =
     lit ''WIFI:T:'' @ security_str (WiFiConfig.security cfg) @ lit '';S:'' @
     escapeWiFiString (WiFiConfig.ssid cfg) @ lit '';P:'' @
     escapeWiFiString (WiFiConfig.password cfg) @ lit '';H:'' @ ?h @ lit '';'' @ lit '';''"
    by (simp add: generateWiFiPayload_def lit_def)
  have "generateWiFiPayload cfg = lit ''WIFI:'' @ ?r"
    unfolding shape by (simp add: lit_def)
  then have prefix: "startsWith (generateWiFiPayload cfg) (lit ''WIFI:'')"
    unfolding startsWith_iff_append by blast
  have h: "\<forall>c \<in> set ?h. not_semi c"
    by (simp add: lit_def not_semi_def)
  have "wifi_at (generateWiFiPayload cfg) =
      Some (security_str (WiFiConfig.security cfg), escapeWiFiString (WiFiConfig.ssid cfg),
            escapeWiFiString (WiFiConfig.password cfg), ?h)"
    unfolding shape
    by (rule wifi_at_fields [OF not_semi_security_str not_semi_escapeWiFiString [OF assms(1)]
          not_semi_escapeWiFiString [OF assms(2)] h])
  then have "wifi_match (generateWiFiPayload cfg) =
      Some (security_str (WiFiConfig.security cfg), escapeWiFiString (WiFiConfig.ssid cfg),
            escapeWiFiString (WiFiConfig.password cfg), ?h)"
    by (rule wifi_match_at)
  moreover have "(?h = lit ''true'') = WiFiConfig.hidden cfg"
    by simp
  ultimately show ?thesis
    using prefix by (simp add: parseQRData_wifi_prefix security_str_nonempty)
qed

section \<open>The Wi-Fi payload\<close>

text \<open>
  C3, with the length of the example amended: \<open>generateWiFiPayload\<close> returns exactly
  \<open>WIFI:T:<security>;S:<escaped ssid>;P:<escaped password>;H:<true|false>;;\<close> with the
  security emitted verbatim and the hidden flag as \<open>true\<close> or \<open>false\<close>; ssid and
  password are escaped by the global replacements of backslash, comma, semicolon,
  double quote and colon by a backslash followed by the character, in this order. For
  the example configuration the result is \<open>WIFI:T:WPA;S:a\;b;P:p\\q;H:true;;\<close>, which
  has 33 characters.
\<close>

theorem generateWiFiPayload_format:
  "generateWiFiPayload cfg =
     lit ''WIFI:T:'' @ security_str (WiFiConfig.security cfg) @
     lit '';S:'' @ escapeWiFiString (WiFiConfig.ssid cfg) @
     lit '';P:'' @ escapeWiFiString (WiFiConfig.password cfg) @
     lit '';H:'' @ lit (if WiFiConfig.hidden cfg then ''true'' else ''false'') @ lit '';;'' \<and>
   escapeWiFiString s =
     replace_all 0x3A [0x5C, 0x3A]
       (replace_all 0x22 [0x5C, 0x22]
         (replace_all 0x3B [0x5C, 0x3B]
           (replace_all 0x2C [0x5C, 0x2C]
             (replace_all 0x5C [0x5C, 0x5C] s)))) \<and>
   generateWiFiPayload example_config =
     lit ''WIFI:T:WPA;S:a'' @ [0x5C] @ lit '';b;P:p'' @ [0x5C, 0x5C] @ lit ''q;H:true;;'' \<and>
   length (generateWiFiPayload example_config) = 33"
  by (simp add: generateWiFiPayload_def example_config_def escapeWiFiString_def lit_def)

text \<open>
  C3 as stated gives the example string 29 characters; the string that the code
  returns, and that the specification spells out, has 33.
\<close>

theorem generateWiFiPayload_length_counterexample:
  "length (generateWiFiPayload example_config) \<noteq> 29"
  by (simp add: generateWiFiPayload_def example_config_def escapeWiFiString_def lit_def)

text \<open>The instance of C3 at an open network whose password has a comma.\<close>

theorem generateWiFiPayload_format_witness:
  "generateWiFiPayload
     \<lparr>WiFiConfig.ssid = lit ''Net'', password = lit ''a,b'', security = nopass, hidden = False\<rparr> =
     lit ''WIFI:T:nopass;S:Net;P:a'' @ [0x5C] @ lit '',b;H:false;;''"
  using generateWiFiPayload_format
    [of "\<lparr>WiFiConfig.ssid = lit ''Net'', password = lit ''a,b'', security = nopass, hidden = False\<rparr>"
        "lit ''a,b''"]
  by (simp add: lit_def escapeWiFiString_charwise escaped_char_def)

section \<open>Validation of a Wi-Fi configuration\<close>

text \<open>
  C4: \<open>validateWiFiConfig\<close> runs four independent checks and returns, in the order of
  the checks, exactly the messages of those that fail: the ssid is empty after
  trimming white space; the ssid is longer than 32; the security is not \<open>nopass\<close> and
  the password is empty; the password is longer than 63. \<open>isValid\<close> holds iff no
  message was produced. For an ssid of 33 letters x, password ok and security
  \<open>nopass\<close> the result is invalid with the 32-character message alone.
\<close>

theorem validateWiFiConfig_reports_failing_checks:
  "errors (validateWiFiConfig cfg) =
     (if trim (WiFiConfig.ssid cfg) = [] then [lit ''SSID is required''] else []) @
     (if length (WiFiConfig.ssid cfg) > 32
      then [lit ''SSID cannot exceed 32 characters''] else []) @
     (if WiFiConfig.security cfg \<noteq> nopass \<and> WiFiConfig.password cfg = []
      then [lit ''Password is required for secured networks''] else []) @
     (if length (WiFiConfig.password cfg) > 63
      then [lit ''Password cannot exceed 63 characters''] else []) \<and>
   (isValid (validateWiFiConfig cfg) \<longleftrightarrow> errors (validateWiFiConfig cfg) = []) \<and>
   validateWiFiConfig
     \<lparr>WiFiConfig.ssid = lit (replicate 33 CHR ''x''), password = lit ''ok'',
      security = nopass, hidden = False\<rparr> =
     \<lparr>isValid = False, errors = [lit ''SSID cannot exceed 32 characters'']\<rparr>"
proof (intro conjI)
  show "validateWiFiConfig
     \<lparr>WiFiConfig.ssid = lit (replicate 33 CHR ''x''), password = lit ''ok'',
      security = nopass, hidden = False\<rparr> =
     \<lparr>isValid = False, errors = [lit ''SSID cannot exceed 32 characters'']\<rparr>"
    by (simp add: validateWiFiConfig_unfold trim_empty_iff lit_def is_space_def)
qed (simp_all add: validateWiFiConfig_unfold)

text \<open>
  The instance of C4 at the configuration with empty ssid and password and security
  WPA: both the missing SSID and the missing password are reported, in that order.
\<close>

theorem validateWiFiConfig_reports_failing_checks_witness:
  "validateWiFiConfig
     \<lparr>WiFiConfig.ssid = lit '''', password = lit '''', security = WPA, hidden = False\<rparr> =
     \<lparr>isValid = False,
      errors = [lit ''SSID is required'', lit ''Password is required for secured networks'']\<rparr>"
  using validateWiFiConfig_reports_failing_checks
    [of "\<lparr>WiFiConfig.ssid = lit '''', password = lit '''', security = WPA, hidden = False\<rparr>"]
  by (simp add: trim_def ValidationResult.equality)

section \<open>Validation of QR content\<close>

text \<open>
  C10: the error list of \<open>validateQRContent\<close> contains the message
  "Content cannot be empty" iff the content is empty after trimming white space, the
  message "Content is too long (maximum 2000 characters)" iff the length of the content
  exceeds 2000, and nothing else; \<open>isValid\<close> holds iff the list is empty.
\<close>

theorem validateQRContent_errors:
  "errors (validateQRContent c) =
     (if trim c = [] then [lit ''Content cannot be empty''] else []) @
     (if length c > 2000 then [lit ''Content is too long (maximum 2000 characters)'']
      else []) \<and>
   (lit ''Content cannot be empty'' \<in> set (errors (validateQRContent c)) \<longleftrightarrow> trim c = []) \<and>
   (lit ''Content is too long (maximum 2000 characters)'' \<in> set (errors (validateQRContent c))
      \<longleftrightarrow> length c > 2000) \<and>
   set (errors (validateQRContent c)) \<subseteq>
     {lit ''Content cannot be empty'', lit ''Content is too long (maximum 2000 characters)''} \<and>
   (isValid (validateQRContent c) \<longleftrightarrow> errors (validateQRContent c) = [])"
  by (simp add: validateQRContent_def Let_def)

text \<open>The instance of C10 at a content of three spaces: only the first message.\<close>

theorem validateQRContent_errors_witness:
  "validateQRContent (lit ''   '') =
     \<lparr>isValid = False, errors = [lit ''Content cannot be empty'']\<rparr>"
  using validateQRContent_errors [of "lit ''   ''"]
  by (simp add: trim_empty_iff ValidationResult.equality lit_Cons is_space_def)

section \<open>The classifier\<close>

text \<open>
  C8: the \<open>data\<close> field of the result of \<open>parseQRData\<close> is the input, unchanged, and
  the \<open>parsed\<close> field is present iff the category is Wi-Fi.
\<close>

theorem parseQRData_data_and_parsed:
  "data (parseQRData s) = s \<and>
   (parsed (parseQRData s) \<noteq> None \<longleftrightarrow> type (parseQRData s) = Wifi)"
  by (simp add: parseQRData_def split: option.split prod.split)

text \<open>The instance of C8 at a Wi-Fi payload: the data is the input and \<open>parsed\<close> is present.\<close>

theorem parseQRData_data_and_parsed_witness:
  "data (parseQRData (lit ''WIFI:T:WPA;S:a;P:b;H:true;;'')) = lit ''WIFI:T:WPA;S:a;P:b;H:true;;'' \<and>
   parsed (parseQRData (lit ''WIFI:T:WPA;S:a;P:b;H:true;;'')) \<noteq> None \<and>
   type (parseQRData (lit ''WIFI:T:WPA;S:a;P:b;H:true;;'')) = Wifi"
  using parseQRData_data_and_parsed [of "lit ''WIFI:T:WPA;S:a;P:b;H:true;;''"]
  by (simp add: parseQRData_def test_defs eval_defs)

text \<open>
  C9: the type \<open>QRType\<close> has a category \<open>Unknown\<close>, and \<open>parseQRData\<close> never returns it:
  the category of a result is one of url, wifi, email, phone, sms, geo, vcard, event
  and text.
\<close>

theorem parseQRData_never_unknown:
  "type (parseQRData s) \<in> {Url, Wifi, Email, Phone, Sms, Geo, Vcard, Event, Text} \<and>
   type (parseQRData s) \<noteq> Unknown"
  by (simp add: parseQRData_def split: option.split prod.split)

text \<open>The instance of C9 at a geo URI, whose category is geo.\<close>

theorem parseQRData_never_unknown_witness:
  "type (parseQRData (lit ''geo:1,2'')) = Geo \<and> type (parseQRData (lit ''geo:1,2'')) \<noteq> Unknown"
  using parseQRData_never_unknown [of "lit ''geo:1,2''"]
  by (simp add: parseQRData_def test_defs eval_defs)

text \<open>
  C7: \<open>parseQRData\<close> returns a result for every input (it is a total function: its
  tests are structural recursions over the input and it has no error result), and when
  none of the eight category tests matches, the category is plain text; so it is for
  "plain hello world".
\<close>

theorem parseQRData_default_text:
  "(\<not> url_test s \<and> \<not> wifi_test s \<and> \<not> email_test s \<and> \<not> phone_test s \<and> \<not> sms_test s \<and>
    \<not> geo_test s \<and> \<not> vcard_test s \<and> \<not> event_test s \<longrightarrow>
      parseQRData s = \<lparr>data = s, type = Text, parsed = None\<rparr>) \<and>
   type (parseQRData (lit ''plain hello world'')) = Text"
proof (intro conjI impI)
  assume "\<not> url_test s \<and> \<not> wifi_test s \<and> \<not> email_test s \<and> \<not> phone_test s \<and> \<not> sms_test s \<and>
    \<not> geo_test s \<and> \<not> vcard_test s \<and> \<not> event_test s"
  then show "parseQRData s = \<lparr>data = s, type = Text, parsed = None\<rparr>"
    by (auto simp add: parseQRData_def wifi_test_def split: option.split)
next
  show "type (parseQRData (lit ''plain hello world'')) = Text"
    by (simp add: parseQRData_def test_defs eval_defs)
qed

text \<open>The instance of C7 at "hello", which none of the eight tests matches.\<close>

theorem parseQRData_default_text_witness:
  "\<not> url_test (lit ''hello'') \<and> \<not> wifi_test (lit ''hello'') \<and> \<not> email_test (lit ''hello'') \<and>
   \<not> phone_test (lit ''hello'') \<and> \<not> sms_test (lit ''hello'') \<and> \<not> geo_test (lit ''hello'') \<and>
   \<not> vcard_test (lit ''hello'') \<and> \<not> event_test (lit ''hello'') \<and>
   parseQRData (lit ''hello'') = \<lparr>data = lit ''hello'', type = Text, parsed = None\<rparr>"
  using parseQRData_default_text [of "lit ''hello''"]
  by (simp add: test_defs eval_defs)

text \<open>
  C6, amended: for an input that matches none of the URL, Wi-Fi and email tests, the
  category is phone iff the input starts with \<open>tel:\<close> or is an optional plus sign
  followed by one or more characters, each a digit, a hyphen, a parenthesis or a white
  space character. (The plus sign is allowed in the first position only, and the input
  needs a character of the class.)
\<close>

theorem phone_classification:
  "\<not> url_test s \<Longrightarrow> \<not> wifi_test s \<Longrightarrow> \<not> email_test s \<Longrightarrow>
   type (parseQRData s) = Phone \<longleftrightarrow>
     startsWith s (lit ''tel:'') \<or>
     (\<exists>r. (s = r \<or> s = 0x2B # r) \<and> r \<noteq> [] \<and>
        (\<forall>c \<in> set r. (0x30 \<le> c \<and> c \<le> 0x39) \<or> c = 0x2D \<or> c = 0x28 \<or> c = 0x29 \<or> is_space c))"
  unfolding phone_char_def [symmetric] phone_shape_iff [symmetric] phone_test_def [symmetric]
  by (auto simp add: parseQRData_def wifi_test_def split: option.split)

text \<open>The instance of C6 at a phone number with plus sign, spaces, parentheses and hyphen.\<close>

theorem phone_classification_witness:
  "\<not> url_test (lit ''+1 (555) 123-4567'') \<and> \<not> wifi_test (lit ''+1 (555) 123-4567'') \<and>
   \<not> email_test (lit ''+1 (555) 123-4567'') \<and>
   type (parseQRData (lit ''+1 (555) 123-4567'')) = Phone"
proof -
  let ?s = "lit ''+1 (555) 123-4567''"
  have tests: "\<not> url_test ?s" "\<not> wifi_test ?s" "\<not> email_test ?s"
    by (simp_all add: test_defs eval_defs)
  have "\<exists>r. (?s = r \<or> ?s = 0x2B # r) \<and> r \<noteq> [] \<and>
        (\<forall>c \<in> set r. (0x30 \<le> c \<and> c \<le> 0x39) \<or> c = 0x2D \<or> c = 0x28 \<or> c = 0x29 \<or> is_space c)"
    by (rule exI [of _ "lit ''1 (555) 123-4567''"]) (simp add: lit_def is_space_def)
  with tests show ?thesis
    using phone_classification [of ?s] by blast
qed

text \<open>
  C6 as stated fails at \<open>1+2\<close>: the input matches none of the earlier tests and consists
  of characters of the class as the specification words it, and its category is not
  phone, because the plus sign is not the first character.
\<close>

theorem phone_class_counterexample:
  "\<not> url_test (lit ''1+2'') \<and> \<not> wifi_test (lit ''1+2'') \<and> \<not> email_test (lit ''1+2'') \<and>
   list_all phone_class_spec (lit ''1+2'') \<and>
   type (parseQRData (lit ''1+2'')) \<noteq> Phone"
  by (simp add: parseQRData_def test_defs eval_defs phone_class_spec_def)

text \<open>
  C5, amended: the seven tests other than the email test (URL, Wi-Fi, phone, SMS, geo,
  vCard, calendar event) are mutually exclusive: at most one of them matches an input.
  The email test is not exclusive of them, since its full-match pattern accepts any
  characters other than white space and the at-sign around the at-sign and the dot, so
  there the order of the tests decides.
\<close>

theorem non_email_tests_exclusive:
  "length (filter id [url_test s, wifi_test s, phone_test s, sms_test s, geo_test s,
                      vcard_test s, event_test s]) \<le> 1"
  using wifi_prefix_not_url [of s] url_not_phone [of s] url_not_others [of s]
    wifi_prefix_not_others [of s] phone_not_others [of s] sms_not_others [of s]
    geo_not_others [of s] vcard_not_event [of s]
  by (auto simp add: wifi_test_def)

text \<open>The instance of C5 at \<open>www.a@b.c\<close>: of the seven tests only the URL test matches.\<close>

theorem non_email_tests_exclusive_witness:
  "filter id [url_test (lit ''www.a@b.c''), wifi_test (lit ''www.a@b.c''),
              phone_test (lit ''www.a@b.c''), sms_test (lit ''www.a@b.c''),
              geo_test (lit ''www.a@b.c''), vcard_test (lit ''www.a@b.c''),
              event_test (lit ''www.a@b.c'')] = [True]"
  using non_email_tests_exclusive [of "lit ''www.a@b.c''"]
  by (simp add: test_defs eval_defs)

text \<open>
  C5 as stated fails at \<open>www.a@b.c\<close>: the URL test and the email test both match, and
  the order of the tests makes the category url.
\<close>

theorem tests_overlap_counterexample:
  "url_test (lit ''www.a@b.c'') \<and> email_test (lit ''www.a@b.c'') \<and>
   length (filter id [url_test (lit ''www.a@b.c''), wifi_test (lit ''www.a@b.c''),
                      email_test (lit ''www.a@b.c''), phone_test (lit ''www.a@b.c''),
                      sms_test (lit ''www.a@b.c''), geo_test (lit ''www.a@b.c''),
                      vcard_test (lit ''www.a@b.c''), event_test (lit ''www.a@b.c'')]) = 2"
  by (simp add: test_defs eval_defs)

text \<open>
  C2, amended: for an input that starts with \<open>WIFI:\<close> and in which the capture pattern
  matches, the category is Wi-Fi, the security is the first group or \<open>nopass\<close> when that
  group is empty, ssid and password are the second and third groups as captured, and
  hidden holds iff the fourth group is \<open>true\<close>. For an input that starts with \<open>WIFI:\<close> and
  in which the pattern does not match, the later tests decide: the category is email
  when the input has the email shape and plain text otherwise, and nothing is parsed.
  The input \<open>WIFI:T:nopass;S:MyNet;P:;H:false;;\<close> gives Wi-Fi with ssid \<open>MyNet\<close>, security
  \<open>nopass\<close>, an empty password and hidden false.
\<close>

theorem wifi_classification:
  "(startsWith s (lit ''WIFI:'') \<and> wifi_match s = Some (g1, g2, g3, g4) \<longrightarrow>
      parseQRData s =
        \<lparr>data = s, type = Wifi,
         parsed = Some \<lparr>ssid = g2, password = g3,
                        security = (if g1 = [] then lit ''nopass'' else g1),
                        hidden = (g4 = lit ''true'')\<rparr>\<rparr>) \<and>
   (startsWith s (lit ''WIFI:'') \<and> wifi_match s = None \<longrightarrow>
      parseQRData s =
        \<lparr>data = s, type = (if email_shape s then Email else Text), parsed = None\<rparr>) \<and>
   parseQRData (lit ''WIFI:T:nopass;S:MyNet;P:;H:false;;'') =
     \<lparr>data = lit ''WIFI:T:nopass;S:MyNet;P:;H:false;;'', type = Wifi,
      parsed = Some \<lparr>ssid = lit ''MyNet'', password = lit '''', security = lit ''nopass'',
                     hidden = False\<rparr>\<rparr>"
proof (intro conjI impI)
  show "parseQRData (lit ''WIFI:T:nopass;S:MyNet;P:;H:false;;'') =
     \<lparr>data = lit ''WIFI:T:nopass;S:MyNet;P:;H:false;;'', type = Wifi,
      parsed = Some \<lparr>ssid = lit ''MyNet'', password = lit '''', security = lit ''nopass'',
                     hidden = False\<rparr>\<rparr>"
    by (simp add: parseQRData_def test_defs eval_defs)
qed (simp_all add: parseQRData_wifi_prefix)

text \<open>
  The instances of C2 at \<open>WIFI:T:;S:a;P:b;H:true;\<close>, where the pattern matches with an
  empty first group, and at \<open>WIFI:hello\<close>, where it does not.
\<close>

theorem wifi_classification_witness:
  "startsWith (lit ''WIFI:T:;S:a;P:b;H:true;'') (lit ''WIFI:'') \<and>
   wifi_match (lit ''WIFI:T:;S:a;P:b;H:true;'') = Some (lit '''', lit ''a'', lit ''b'', lit ''true'') \<and>
   parseQRData (lit ''WIFI:T:;S:a;P:b;H:true;'') =
     \<lparr>data = lit ''WIFI:T:;S:a;P:b;H:true;'', type = Wifi,
      parsed = Some \<lparr>ssid = lit ''a'', password = lit ''b'', security = lit ''nopass'',
                     hidden = True\<rparr>\<rparr> \<and>
   startsWith (lit ''WIFI:hello'') (lit ''WIFI:'') \<and> wifi_match (lit ''WIFI:hello'') = None \<and>
   parseQRData (lit ''WIFI:hello'') = \<lparr>data = lit ''WIFI:hello'', type = Text, parsed = None\<rparr>"
proof -
  have a: "startsWith (lit ''WIFI:T:;S:a;P:b;H:true;'') (lit ''WIFI:'')"
    and b: "wifi_match (lit ''WIFI:T:;S:a;P:b;H:true;'') =
              Some (lit '''', lit ''a'', lit ''b'', lit ''true'')"
    and c: "startsWith (lit ''WIFI:hello'') (lit ''WIFI:'')"
    and d: "wifi_match (lit ''WIFI:hello'') = None"
    and e: "\<not> email_shape (lit ''WIFI:hello'')"
    by (simp_all add: eval_defs)
  from a b c d e show ?thesis
    using wifi_classification [of "lit ''WIFI:T:;S:a;P:b;H:true;''" "lit ''''" "lit ''a''" "lit ''b''" "lit ''true''"]
      wifi_classification [of "lit ''WIFI:hello''"]
    by simp
qed

text \<open>
  C2 as stated has every input with the prefix and without a match end as plain text;
  \<open>WIFI:a@b.c\<close> is such an input, and its category is email.
\<close>

theorem wifi_fall_through_counterexample:
  "startsWith (lit ''WIFI:a@b.c'') (lit ''WIFI:'') \<and> wifi_match (lit ''WIFI:a@b.c'') = None \<and>
   type (parseQRData (lit ''WIFI:a@b.c'')) = Email \<and>
   type (parseQRData (lit ''WIFI:a@b.c'')) \<noteq> Text"
  by (simp add: parseQRData_def test_defs eval_defs)

section \<open>Encoding and classifying\<close>

text \<open>
  C1, amended: for every configuration that passes \<open>validateWiFiConfig\<close> and has no
  semicolon in its ssid and password, classifying the payload of
  \<open>generateWiFiPayload\<close> gives the category Wi-Fi with the security and the hidden flag
  of the configuration, and with the escaped ssid and the escaped password; so the
  ssid (the password) is recovered whenever it contains none of the five escaped
  characters.
\<close>

theorem wifi_round_trip:
  assumes "isValid (validateWiFiConfig cfg)"
    and "0x3B \<notin> set (WiFiConfig.ssid cfg)" and "0x3B \<notin> set (WiFiConfig.password cfg)"
  shows "\<exists>w. parseQRData (generateWiFiPayload cfg) =
           \<lparr>data = generateWiFiPayload cfg, type = Wifi, parsed = Some w\<rparr> \<and>
         WiFiData.security w = security_str (WiFiConfig.security cfg) \<and>
         WiFiData.hidden w = WiFiConfig.hidden cfg \<and>
         WiFiData.ssid w = escapeWiFiString (WiFiConfig.ssid cfg) \<and>
         WiFiData.password w = escapeWiFiString (WiFiConfig.password cfg) \<and>
         ((\<forall>c \<in> set (WiFiConfig.ssid cfg). \<not> escaped_char c) \<longrightarrow>
            WiFiData.ssid w = WiFiConfig.ssid cfg) \<and>
         ((\<forall>c \<in> set (WiFiConfig.password cfg). \<not> escaped_char c) \<longrightarrow>
            WiFiData.password w = WiFiConfig.password cfg)"
  using generateWiFiPayload_parse [OF assms(2,3)]
  by (simp add: escapeWiFiString_plain)

text \<open>The instance of C1 at the network \<open>MyNet\<close> with password \<open>secret\<close>.\<close>

theorem wifi_round_trip_witness:
  "isValid (validateWiFiConfig
      \<lparr>WiFiConfig.ssid = lit ''MyNet'', password = lit ''secret'', security = WPA, hidden = True\<rparr>) \<and>
   0x3B \<notin> set (lit ''MyNet'') \<and> 0x3B \<notin> set (lit ''secret'') \<and>
   parseQRData (generateWiFiPayload
      \<lparr>WiFiConfig.ssid = lit ''MyNet'', password = lit ''secret'', security = WPA, hidden = True\<rparr>) =
     \<lparr>data = lit ''WIFI:T:WPA;S:MyNet;P:secret;H:true;;'', type = Wifi,
      parsed = Some \<lparr>ssid = lit ''MyNet'', password = lit ''secret'', security = lit ''WPA'',
                     hidden = True\<rparr>\<rparr>"
proof -
  let ?cfg = "\<lparr>WiFiConfig.ssid = lit ''MyNet'', password = lit ''secret'', security = WPA,
               hidden = True\<rparr>"
  have valid: "isValid (validateWiFiConfig ?cfg)"
    by (simp add: validateWiFiConfig_unfold trim_empty_iff lit_def is_space_def)
  have semi: "0x3B \<notin> set (lit ''MyNet'')" "0x3B \<notin> set (lit ''secret'')"
    by (simp_all add: lit_def)
  have plain: "\<forall>c \<in> set (lit ''MyNet''). \<not> escaped_char c"
    "\<forall>c \<in> set (lit ''secret''). \<not> escaped_char c"
    by (simp_all add: lit_def escaped_char_def)
  have payload: "generateWiFiPayload ?cfg = lit ''WIFI:T:WPA;S:MyNet;P:secret;H:true;;''"
    by (simp add: generateWiFiPayload_def escapeWiFiString_plain plain) (simp add: lit_def)
  from wifi_round_trip [of ?cfg] valid semi plain
  obtain w where "parseQRData (generateWiFiPayload ?cfg) =
           \<lparr>data = generateWiFiPayload ?cfg, type = Wifi, parsed = Some w\<rparr>"
    and "WiFiData.security w = lit ''WPA''" and "WiFiData.hidden w = True"
    and "WiFiData.ssid w = lit ''MyNet''" and "WiFiData.password w = lit ''secret''"
    by auto
  then show ?thesis
    using valid semi payload by simp
qed

text \<open>
  C1 as stated fails at two valid configurations. With the ssid \<open>a;b\<close> the payload has
  an escaped semicolon, the capture pattern does not match and the category is not
  Wi-Fi. With the ssid \<open>a,b\<close> the category is Wi-Fi and the extracted ssid is the
  escaped one, not the original.
\<close>

theorem wifi_round_trip_counterexample:
  "isValid (validateWiFiConfig example_config) \<and>
   type (parseQRData (generateWiFiPayload example_config)) \<noteq> Wifi \<and>
   isValid (validateWiFiConfig comma_config) \<and>
   type (parseQRData (generateWiFiPayload comma_config)) = Wifi \<and>
   map_option WiFiData.ssid (parsed (parseQRData (generateWiFiPayload comma_config))) \<noteq>
     Some (WiFiConfig.ssid comma_config)"
  by (simp add: validateWiFiConfig_unfold trim_empty_iff example_config_def comma_config_def
      generateWiFiPayload_def escapeWiFiString_def parseQRData_def test_defs eval_defs)

end
